theory Spec2Isabelle
  imports Complex_Main
begin

section \<open>Data model\<close>

text \<open>
  The payment and settlement subsystem of the event platform, embedded from
  \<^verbatim>\<open>src/controllers/payment.controller.ts\<close>, \<^verbatim>\<open>src/models/donation.model.ts\<close>,
  \<^verbatim>\<open>src/models/job.model.ts\<close>, \<^verbatim>\<open>utils/helpers\<close> (\<^verbatim>\<open>calculateFee\<close>) and the settlement
  poller (\<^verbatim>\<open>runPaystackSettlementReconcile\<close>).

  Conventions. A JavaScript \<^verbatim>\<open>number\<close> that carries money is an exact rational (the rounding
  of IEEE doubles is not modelled; no statement below depends on an arithmetic identity that
  rounding could break, except where a concrete scenario is evaluated). A \<^verbatim>\<open>Date\<close> is its
  millisecond timestamp. An \<^verbatim>\<open>ObjectId\<close> is a natural number. A collection is the list of
  its documents in insertion order; \<^verbatim>\<open>findOne\<close> returns the first match. The store itself
  never fails; the payment gateway can. The automatic \<^verbatim>\<open>createdAt\<close>/\<^verbatim>\<open>updatedAt\<close>
  stamps and the schema validators that Mongoose runs are not part of the model.
\<close>

type_synonym number = rat
type_synonym objectId = nat
type_synonym date = int

datatype donation_status = Pending | Completed | Refunded | Failed

datatype payout_status = PayoutPending | Paid | PayoutFailed

record metadata =
  transactionId :: string
  gateway :: string
  gatewayResponse :: string

text \<open>\<^verbatim>\<open>IDonation\<close>. \<open>d_id\<close> is \<^verbatim>\<open>_id\<close>; \<open>fee\<close> is \<open>None\<close> until the pre-save hook sets it.\<close>

record donation =
  d_id :: objectId
  event :: objectId
  userId :: objectId
  amount :: number
  currency :: string
  status :: donation_status
  paymentReference :: "string option"
  metadata :: "metadata option"
  isPayoutEligible :: bool
  settledAt :: "date option"
  payoutStatus :: payout_status
  fee :: "number option"

datatype chip_in_type = Fixed | Target | DonationType

record chip_in_details =
  chipInType :: chip_in_type
  fixedAmount :: "number option"
  targetAmount :: "number option"
  minAmount :: "number option"

text \<open>The fields of \<^verbatim>\<open>IEvent\<close> that the payment code reads. \<open>e_id\<close> is \<^verbatim>\<open>_id\<close>.\<close>

record event_doc =
  e_id :: objectId
  title :: string
  slug :: string
  image_url :: string
  host_name :: string
  host_email :: string
  host_photo :: "string option"
  isPrivate :: bool
  chipInDetails :: "chip_in_details option"

text \<open>\<^verbatim>\<open>IJob\<close>: the checkpoint of a named batch job.\<close>

record job =
  job_name :: string
  lastRunAt :: "date option"

record db =
  donations :: "donation list"
  events :: "event_doc list"
  jobs :: "job list"

subsection \<open>Errors and responses\<close>

text \<open>
  The text of an \<^verbatim>\<open>AppError\<close>. The two messages of the pre-save hook are template
  literals over the currency and an amount; they are kept structured.
\<close>

datatype message =
    Text string
  | AtLeast string "number option"
  | Exactly string "number option"

text \<open>
  \<open>AppError m c\<close> is \<^verbatim>\<open>new AppError(m, c)\<close>; \<open>Thrown m\<close> is any other exception
  (a \<^verbatim>\<open>TypeError\<close>, a driver error) with message \<open>m\<close>.
\<close>

datatype error = AppError message nat | Thrown string

record event_view =
  v_title :: string
  v_slug :: string
  v_image :: string
  v_host_name :: string
  v_host_email :: string
  v_host_photo :: "string option"

text \<open>The object \<^verbatim>\<open>handleFormatData\<close> returns: the donation and the trimmed event.\<close>

record formatted =
  f_donation :: donation
  f_event :: event_view

datatype body =
    VerifyBody "formatted option" string
  | ChipinBody string

text \<open>
  What a handler does with the request: \<^verbatim>\<open>res.sendStatus(n)\<close>,
  \<^verbatim>\<open>res.status(n).json(b)\<close>, or \<^verbatim>\<open>next(err)\<close> (also the way \<^verbatim>\<open>catchAsync\<close> forwards
  an exception that escapes the handler).
\<close>

datatype response = SendStatus nat | Json nat body | Next error


section \<open>Fee calculator\<close>

definition calculateFee :: "number \<Rightarrow> number" where
  "calculateFee amt = (let feePercentage = 0.01; fixedFee = 100
                       in amt * feePercentage + fixedFee)"

section \<open>Store operations\<close>

fun findOne :: "('a \<Rightarrow> bool) \<Rightarrow> 'a list \<Rightarrow> 'a option" where
  "findOne p [] = None"
| "findOne p (x # xs) = (if p x then Some x else findOne p xs)"

text \<open>\<^verbatim>\<open>updateOne\<close>: the first matching document is updated, the others are kept.\<close>

fun updateOne :: "('a \<Rightarrow> bool) \<Rightarrow> ('a \<Rightarrow> 'a) \<Rightarrow> 'a list \<Rightarrow> 'a list" where
  "updateOne p u [] = []"
| "updateOne p u (x # xs) = (if p x then u x # xs else x # updateOne p u xs)"

text \<open>\<^verbatim>\<open>findOneAndUpdate\<close> without upsert: the updated document (or \<open>None\<close>) and the
  new collection.\<close>

definition findOneAndUpdate ::
  "('a \<Rightarrow> bool) \<Rightarrow> ('a \<Rightarrow> 'a) \<Rightarrow> 'a list \<Rightarrow> 'a option \<times> 'a list" where
  "findOneAndUpdate p u xs = (map_option u (findOne p xs), updateOne p u xs)"

section \<open>The pre-save hook of the donation schema\<close>

text \<open>\<^verbatim>\<open>this.amount < minAmount\<close>: false when \<^verbatim>\<open>minAmount\<close> is undefined.\<close>

definition js_lt :: "number \<Rightarrow> number option \<Rightarrow> bool" where
  "js_lt a m = (case m of None \<Rightarrow> False | Some b \<Rightarrow> a < b)"

text \<open>\<^verbatim>\<open>this.amount !== fixedAmount\<close>: true when \<^verbatim>\<open>fixedAmount\<close> is undefined.\<close>

definition js_neq :: "number \<Rightarrow> number option \<Rightarrow> bool" where
  "js_neq a m = (Some a \<noteq> m)"

definition pre_save :: "event_doc list \<Rightarrow> bool \<Rightarrow> donation \<Rightarrow> error + donation" where
  "pre_save evs isNew this =
     (if isNew then
        (case findOne (\<lambda>e. e_id e = event this) evs of
           None \<Rightarrow> Inl (AppError (Text ''Event not found'') 404)
         | Some ev \<Rightarrow>
             (case chipInDetails ev of
                Some cd \<Rightarrow>
                  if chipInType cd = DonationType \<and> js_lt (amount this) (minAmount cd)
                  then Inl (AppError (AtLeast (currency this) (minAmount cd)) 400)
                  else if chipInType cd = Fixed \<and> js_neq (amount this) (fixedAmount cd)
                  then Inl (AppError (Exactly (currency this) (fixedAmount cd)) 400)
                  else Inr (this\<lparr>fee := Some (calculateFee (amount this))\<rparr>)
              | None \<Rightarrow> Inr (this\<lparr>fee := Some (calculateFee (amount this))\<rparr>)))
      else Inr this)"

section \<open>JSON values\<close>

text \<open>
  The parsed body of a webhook request (\<^verbatim>\<open>req.body\<close>, of TypeScript type \<^verbatim>\<open>any\<close>).
  Numbers are integers here. An object is the list of its members in insertion order.
\<close>

datatype json =
    JNull
  | JBool bool
  | JNum int
  | JStr string
  | JArr "json list"
  | JObj "(string \<times> json) list"

definition digit :: "nat \<Rightarrow> char" where
  "digit n = ''0123456789'' ! (n mod 10)"

fun show_nat :: "nat \<Rightarrow> string" where
  "show_nat n = (if n < 10 then [digit n] else show_nat (n div 10) @ [digit n])"

declare show_nat.simps [simp del]

definition show_int :: "int \<Rightarrow> string" where
  "show_int i = (if i < 0 then CHR ''-'' # show_nat (nat (- i)) else show_nat (nat i))"

fun commas :: "string list \<Rightarrow> string" where
  "commas [] = []"
| "commas [x] = x"
| "commas (x # y # ys) = x @ CHR '','' # commas (y # ys)"

text \<open>The escapes \<^verbatim>\<open>JSON.stringify\<close> applies to the quotation mark, the backslash and the
  named control characters; other control characters are left as they are.\<close>

definition escape :: "char \<Rightarrow> string" where
  "escape c =
     (if c = CHR 0x22 then [CHR 0x5C, CHR 0x22]
      else if c = CHR 0x5C then [CHR 0x5C, CHR 0x5C]
      else if c = CHR 0x0A then [CHR 0x5C, CHR ''n'']
      else if c = CHR 0x0D then [CHR 0x5C, CHR ''r'']
      else if c = CHR 0x09 then [CHR 0x5C, CHR ''t'']
      else [c])"

definition quote :: "string \<Rightarrow> string" where
  "quote s = CHR 0x22 # concat (map escape s) @ [CHR 0x22]"

definition member :: "string \<times> string \<Rightarrow> string" where
  "member kv = quote (fst kv) @ CHR '':'' # snd kv"

text \<open>\<^verbatim>\<open>JSON.stringify(value)\<close> with no indentation: no white space between tokens.\<close>

primrec JSON_stringify :: "json \<Rightarrow> string" where
  "JSON_stringify JNull = ''null''"
| "JSON_stringify (JBool b) = (if b then ''true'' else ''false'')"
| "JSON_stringify (JNum n) = show_int n"
| "JSON_stringify (JStr s) = quote s"
| "JSON_stringify (JArr xs) = CHR ''['' # commas (map JSON_stringify xs) @ '']''"
| "JSON_stringify (JObj kvs) =
     CHR ''{'' # commas (map member (map (map_prod id JSON_stringify) kvs)) @ ''}''"

text \<open>Property access \<^verbatim>\<open>value.key\<close> on a non-null value: \<open>None\<close> is \<^verbatim>\<open>undefined\<close>.\<close>

definition js_prop :: "json \<Rightarrow> string \<Rightarrow> json option" where
  "js_prop j k = (case j of JObj kvs \<Rightarrow> map_of kvs k | _ \<Rightarrow> None)"

text \<open>
  The string a value becomes in a template literal. A reference that is not a string is
  also matched against \<^verbatim>\<open>paymentReference\<close> through this conversion, which approximates
  the cast Mongoose applies to a filter on a string path.
\<close>

primrec js_str :: "json \<Rightarrow> string" where
  "js_str JNull = ''null''"
| "js_str (JBool b) = (if b then ''true'' else ''false'')"
| "js_str (JNum n) = show_int n"
| "js_str (JStr s) = s"
| "js_str (JArr xs) = commas (map js_str xs)"
| "js_str (JObj kvs) = ''[object Object]''"

definition js_String :: "json option \<Rightarrow> string" where
  "js_String v = (case v of None \<Rightarrow> ''undefined'' | Some j \<Rightarrow> js_str j)"

section \<open>The payment gateway and the environment\<close>

text \<open>\<^verbatim>\<open>response.data.data\<close> of \<^verbatim>\<open>GET /transaction/verify/:reference\<close>.\<close>

record tx_metadata =
  m_type :: string
  originalAmount :: number
  transaction_fee :: number

record verified =
  v_status :: string
  v_amount :: number
  gateway_response :: string
  v_metadata :: "tx_metadata option"

record init_metadata =
  i_eventId :: objectId
  i_transaction_fee :: "number option"
  i_originalAmount :: number
  i_type :: string

record init_request =
  i_email :: string
  i_amount :: "number option"
  i_reference :: string
  i_callback_url :: string
  i_metadata :: init_metadata

record init_response =
  i_status :: bool
  authorization_url :: string

record settlement =
  s_id :: nat
  s_status :: string

record settlement_txn =
  t_id :: nat
  t_reference :: "string option"
  t_status :: string

record settlement_params =
  p_from :: date
  p_status :: string
  p_perPage :: nat
  p_page :: nat

record txn_params =
  q_perPage :: nat
  q_page :: nat

text \<open>
  Everything outside the repository: the gateway's answers (\<open>Inl m\<close> is a failed call with
  message \<open>m\<close>), the HMAC of Node's \<^verbatim>\<open>crypto\<close> (key, message, hex digest), the
  process environment, and the time one gateway call takes.
\<close>

record env =
  PAYSTACK_SECRET_KEY :: string
  FRONT_URL :: string
  SETTLEMENT_LOOKBACK_DAYS :: "int option"
  hmac_sha512_hex :: "string \<Rightarrow> string \<Rightarrow> string"
  paystack_verify :: "string \<Rightarrow> string + verified"
  paystack_initialize :: "init_request \<Rightarrow> string + init_response"
  paystack_settlement :: "settlement_params \<Rightarrow> string + settlement list option"
  paystack_settlement_transactions :: "nat \<Rightarrow> txn_params \<Rightarrow> string + settlement_txn list option"
  elapse :: "date \<Rightarrow> date"

section \<open>The payment controller\<close>

definition type_error_null :: "string \<Rightarrow> string" where
  "type_error_null p =
     ''Cannot read properties of null (reading '' @ CHR 0x27 # p @ [CHR 0x27] @ '')''"

definition type_error_undefined :: "string \<Rightarrow> string" where
  "type_error_undefined p =
     ''Cannot read properties of undefined (reading '' @ CHR 0x27 # p @ [CHR 0x27] @ '')''"

text \<open>\<^verbatim>\<open>.populate({ path: "event", ... })\<close>: the referenced event, or null.\<close>

definition populate :: "event_doc list \<Rightarrow> donation \<Rightarrow> event_doc option" where
  "populate evs d = findOne (\<lambda>e. e_id e = event d) evs"

definition handleFormatData :: "donation \<Rightarrow> event_doc option \<Rightarrow> string + formatted" where
  "handleFormatData d pe =
     (case pe of
        None \<Rightarrow> Inl (type_error_null ''title'')
      | Some ev \<Rightarrow>
          Inr \<lparr>f_donation = d,
               f_event = \<lparr>v_title = title ev, v_slug = slug ev, v_image = image_url ev,
                          v_host_name = host_name ev, v_host_email = host_email ev,
                          v_host_photo = host_photo ev\<rparr>\<rparr>)"

text \<open>The filter and the update document both handlers pass to
  \<^verbatim>\<open>Donation.findOneAndUpdate\<close>.\<close>

definition completionFilter :: "string \<Rightarrow> donation \<Rightarrow> bool" where
  "completionFilter reference d = (paymentReference d = Some reference)"

definition completionUpdate :: "string \<Rightarrow> string \<Rightarrow> donation \<Rightarrow> donation" where
  "completionUpdate reference gr d =
     d\<lparr>status := Completed,
       metadata := Some \<lparr>transactionId = reference, gateway = ''paystack'',
                         gatewayResponse = gr\<rparr>\<rparr>"

definition verifyPayment :: "env \<Rightarrow> string option \<Rightarrow> db \<Rightarrow> response \<times> db" where
  "verifyPayment en query_reference s =
     (case query_reference of
        None \<Rightarrow> (Next (AppError (Text ''Payment reference is required'') 400), s)
      | Some reference \<Rightarrow>
          if reference = [] then (Next (AppError (Text ''Payment reference is required'') 400), s)
          else
            (case paystack_verify en reference of
               Inl m \<Rightarrow> (Next (AppError (Text m) 500), s)
             | Inr paymentData \<Rightarrow>
                 if v_status paymentData \<noteq> ''success''
                 then (Next (AppError (Text ''Payment not successful'') 400), s)
                 else
                   (case v_metadata paymentData of
                      None \<Rightarrow> (Next (AppError (Text (type_error_null ''type'')) 500), s)
                    | Some md \<Rightarrow>
                        let paymentType = m_type md;
                            expectedAmount = (originalAmount md + transaction_fee md) * 100
                        in
                        if v_amount paymentData \<noteq> expectedAmount
                        then (Next (AppError (Text ''Payment amount mismatch'') 400), s)
                        else if paymentType = ''chipin'' then
                          (let existingDonation = findOne (completionFilter reference) (donations s)
                           in
                           if existingDonation \<noteq> None \<and>
                              map_option status existingDonation = Some Completed
                           then
                             (case findOne (completionFilter reference) (donations s) of
                                None \<Rightarrow> (Next (AppError (Text ''Chip-in not found'') 404), s)
                              | Some d \<Rightarrow>
                                  (case handleFormatData d (populate (events s) d) of
                                     Inl m \<Rightarrow> (Next (AppError (Text m) 500), s)
                                   | Inr data \<Rightarrow>
                                       (Json 200 (VerifyBody (Some data) paymentType), s)))
                           else
                             (case findOneAndUpdate (completionFilter reference)
                                     (completionUpdate reference (gateway_response paymentData))
                                     (donations s) of
                                (None, ds) \<Rightarrow>
                                  (Next (AppError (Text ''Chip-in not found'') 404),
                                   s\<lparr>donations := ds\<rparr>)
                              | (Some d, ds) \<Rightarrow>
                                  (case handleFormatData d (populate (events s) d) of
                                     Inl m \<Rightarrow>
                                       (Next (AppError (Text m) 500), s\<lparr>donations := ds\<rparr>)
                                   | Inr data \<Rightarrow>
                                       (Json 200 (VerifyBody (Some data) paymentType),
                                        s\<lparr>donations := ds\<rparr>))))
                        else if paymentType = ''ticket'' then
                          (Json 200 (VerifyBody None paymentType), s)
                        else (Next (AppError (Text ''Invalid payment type'') 400), s))))"

text \<open>
  A webhook request: the bytes received (kept by the \<^verbatim>\<open>verify\<close> callback of
  \<^verbatim>\<open>express.json\<close> in \<^verbatim>\<open>app.ts\<close> as \<^verbatim>\<open>req.rawBody\<close>), the body parsed from them, and
  the \<^verbatim>\<open>x-paystack-signature\<close> header.
\<close>

record webhook_request =
  rawBody :: string
  req_body :: json
  x_paystack_signature :: "string option"

definition paystackWebhook :: "env \<Rightarrow> webhook_request \<Rightarrow> db \<Rightarrow> response \<times> db" where
  "paystackWebhook en req s =
     (let payload = req_body req;
          hash = hmac_sha512_hex en (PAYSTACK_SECRET_KEY en) (JSON_stringify payload);
          signature = x_paystack_signature req
      in
      if Some hash \<noteq> signature \<or> js_prop payload ''event'' \<noteq> Some (JStr ''charge.success'')
      then (SendStatus 400, s)
      else
        (case js_prop payload ''data'' of
           None \<Rightarrow> (Next (Thrown (type_error_undefined ''reference'')), s)
         | Some JNull \<Rightarrow> (Next (Thrown (type_error_null ''reference'')), s)
         | Some paymentData \<Rightarrow>
             (let reference = js_String (js_prop paymentData ''reference'') in
              case paystack_verify en reference of
                Inl m \<Rightarrow> (SendStatus 500, s)
              | Inr verifiedData \<Rightarrow>
                  if v_status verifiedData \<noteq> ''success'' then (SendStatus 400, s)
                  else
                    (case v_metadata verifiedData of
                       None \<Rightarrow> (SendStatus 500, s)
                     | Some md \<Rightarrow>
                         let paymentType = m_type md in
                         if paymentType = ''chipin'' then
                           (let existingDonation =
                                  findOne (completionFilter reference) (donations s)
                            in
                            if existingDonation \<noteq> None \<and>
                               map_option status existingDonation = Some Completed
                            then (SendStatus 200, s)
                            else
                              (SendStatus 200,
                               s\<lparr>donations :=
                                    snd (findOneAndUpdate (completionFilter reference)
                                           (completionUpdate reference
                                              (gateway_response verifiedData))
                                           (donations s))\<rparr>))
                         else if paymentType = ''ticket'' then (SendStatus 200, s)
                         else (SendStatus 400, s)))))"

subsection \<open>Creating a donation\<close>

text \<open>The document \<^verbatim>\<open>Donation.create\<close> builds from its argument and the schema defaults.\<close>

definition new_donation :: "objectId \<Rightarrow> objectId \<Rightarrow> objectId \<Rightarrow> number \<Rightarrow> string \<Rightarrow> donation" where
  "new_donation oid eventId uid amt reference =
     \<lparr>d_id = oid, event = eventId, userId = uid, amount = amt, currency = ''NGN'',
      status = Pending, paymentReference = Some reference, metadata = None,
      isPayoutEligible = False, settledAt = None, payoutStatus = PayoutPending, fee = None\<rparr>"

text \<open>
  The insert that follows the hook. The collection has a unique index on \<^verbatim>\<open>_id\<close> and a
  unique sparse index on \<^verbatim>\<open>paymentReference\<close>; a duplicate key makes the driver throw.
\<close>

definition duplicate_key :: "donation \<Rightarrow> donation list \<Rightarrow> bool" where
  "duplicate_key d ds =
     (d_id d \<in> set (map d_id ds) \<or>
      (paymentReference d \<noteq> None \<and> paymentReference d \<in> set (map paymentReference ds)))"

definition Donation_create ::
  "event_doc list \<Rightarrow> donation \<Rightarrow> donation list \<Rightarrow> error + donation \<times> donation list" where
  "Donation_create evs d ds =
     (case pre_save evs True d of
        Inl e \<Rightarrow> Inl e
      | Inr d' \<Rightarrow>
          if duplicate_key d' ds then Inl (Thrown ''E11000 duplicate key error'')
          else Inr (d', ds @ [d']))"

record chipin_request =
  user_email :: string
  user_id :: objectId
  body_amount :: number
  body_eventId :: objectId

text \<open>What the run time supplies to one \<^verbatim>\<open>chipin\<close> call: \<^verbatim>\<open>Date.now()\<close>, the hex of
  \<^verbatim>\<open>crypto.randomBytes(8)\<close>, and the \<^verbatim>\<open>ObjectId\<close> of the new document.\<close>

record fresh =
  date_now :: date
  random_hex :: string
  new_oid :: objectId

definition chipin :: "env \<Rightarrow> chipin_request \<Rightarrow> fresh \<Rightarrow> db \<Rightarrow> response \<times> db" where
  "chipin en req fr s =
     (let email = user_email req; amt = body_amount req; eventId = body_eventId req in
      case findOne (\<lambda>e. e_id e = eventId) (events s) of
        None \<Rightarrow> (Next (AppError (Text ''Event not found'') 404), s)
      | Some ev \<Rightarrow>
          if \<not> isPrivate ev \<or> chipInDetails ev = None
          then (Next (AppError (Text ''This event does not accept donations'') 400), s)
          else
            let reference = ''CHIP-IN_'' @ show_int (date_now fr) @ ''_'' @ random_hex fr in
            if amt \<le> 0 then (Next (AppError (Text ''Amount must be positive'') 400), s)
            else
              (case Donation_create (events s)
                      (new_donation (new_oid fr) eventId (user_id req) amt reference)
                      (donations s) of
                 Inl e \<Rightarrow> (Next e, s)
               | Inr (d, ds) \<Rightarrow>
                   (let s' = s\<lparr>donations := ds\<rparr> in
                    case paystack_initialize en
                           \<lparr>i_email = email,
                            i_amount = map_option (\<lambda>f. (amt + f) * 100) (fee d),
                            i_reference = reference,
                            i_callback_url = FRONT_URL en @ ''/verify-payment'',
                            i_metadata = \<lparr>i_eventId = eventId, i_transaction_fee = fee d,
                                           i_originalAmount = amt, i_type = ''chipin''\<rparr>\<rparr> of
                      Inl m \<Rightarrow> (Next (AppError (Text m) 500), s')
                    | Inr r \<Rightarrow>
                        if \<not> i_status r
                        then (Next (AppError (Text ''Failed to initialize payment'') 500), s')
                        else (Json 201 (ChipinBody (authorization_url r)), s'))))"

section \<open>Job checkpoints\<close>

definition getLastRun :: "string \<Rightarrow> job list \<Rightarrow> date option" where
  "getLastRun n js = (case findOne (\<lambda>j. job_name j = n) js of
                        Some j \<Rightarrow> lastRunAt j | None \<Rightarrow> None)"

text \<open>\<^verbatim>\<open>findOneAndUpdate({ name }, { lastRunAt: new Date() }, { upsert: true })\<close>.\<close>

definition updateLastRun :: "string \<Rightarrow> date \<Rightarrow> job list \<Rightarrow> job list" where
  "updateLastRun n now js =
     (if findOne (\<lambda>j. job_name j = n) js = None
      then js @ [\<lparr>job_name = n, lastRunAt = Some now\<rparr>]
      else updateOne (\<lambda>j. job_name j = n) (\<lambda>j. j\<lparr>lastRunAt := Some now\<rparr>) js)"

section \<open>The settlement reconciliation job\<close>

text \<open>\<^verbatim>\<open>parseInt(process.env.SETTLEMENT_LOOKBACK_DAYS || "1", 10)\<close>, for a variable that is
  unset or holds an integer.\<close>

definition DEFAULT_LOOKBACK_DAYS :: "env \<Rightarrow> int" where
  "DEFAULT_LOOKBACK_DAYS en = (case SETTLEMENT_LOOKBACK_DAYS en of None \<Rightarrow> 1 | Some d \<Rightarrow> d)"

definition listSettlements :: "env \<Rightarrow> settlement_params \<Rightarrow> string + settlement list option" where
  "listSettlements en params = paystack_settlement en params"

definition listSettlementTransactions ::
  "env \<Rightarrow> nat \<Rightarrow> txn_params \<Rightarrow> string + settlement_txn list option" where
  "listSettlementTransactions en settlementId params =
     paystack_settlement_transactions en settlementId params"

text \<open>The local state of a run: the donation collection, the wall clock (each gateway call
  advances it by \<open>elapse\<close>) and the counter.\<close>

record rstate =
  store :: "donation list"
  clock :: date
  totalReconciled :: nat

datatype outcome = Ok | Threw string

text \<open>\<^verbatim>\<open>txns.map((t) => t.reference).filter(Boolean)\<close>.\<close>

definition references_of :: "settlement_txn list \<Rightarrow> string list" where
  "references_of txns =
     concat (map (\<lambda>t. case t_reference t of
                         None \<Rightarrow> [] | Some r \<Rightarrow> if r = [] then [] else [r]) txns)"

text \<open>The filter of the batch query.\<close>

definition reconcileFilter :: "string list \<Rightarrow> donation \<Rightarrow> bool" where
  "reconcileFilter references d =
     ((case paymentReference d of None \<Rightarrow> False | Some r \<Rightarrow> r \<in> set references) \<and>
      map_option gateway (metadata d) = Some ''paystack'' \<and>
      isPayoutEligible d = False \<and>
      payoutStatus d = PayoutPending \<and>
      status d = Completed)"

definition settle :: "date \<Rightarrow> donation \<Rightarrow> donation" where
  "settle now d = d\<lparr>settledAt := Some now, isPayoutEligible := True\<rparr>"

text \<open>\<^verbatim>\<open>Donation.bulkWrite\<close> of \<^verbatim>\<open>updateOne\<close> operations, each filtered by \<^verbatim>\<open>_id\<close>,
  applied in order.\<close>

fun bulkWrite :: "(objectId \<times> (donation \<Rightarrow> donation)) list \<Rightarrow> donation list \<Rightarrow> donation list" where
  "bulkWrite [] ds = ds"
| "bulkWrite (opn # ops) ds = bulkWrite ops (updateOne (\<lambda>d. d_id d = fst opn) (snd opn) ds)"

text \<open>The body of the inner loop once a page has references: query, bulk update, count.\<close>

definition reconcilePage :: "string list \<Rightarrow> rstate \<Rightarrow> rstate" where
  "reconcilePage references st =
     (let found = filter (reconcileFilter references) (store st) in
      if length found > 0 then
        (let now = clock st;
             bulkOps = map (\<lambda>d. (d_id d, settle now)) found
         in st\<lparr>store := bulkWrite bulkOps (store st),
                totalReconciled := totalReconciled st + length found\<rparr>)
      else st)"

text \<open>
  The loops. The first argument bounds the number of iterations of a loop: the gateway
  decides how many pages there are, so a loop with no bound need not end, and \<open>None\<close> is
  a run that has not returned within the bound.
\<close>

fun txnLoop :: "nat \<Rightarrow> env \<Rightarrow> nat \<Rightarrow> nat \<Rightarrow> rstate \<Rightarrow> (outcome \<times> rstate) option" where
  "txnLoop 0 en sid txnPage st = None"
| "txnLoop (Suc n) en sid txnPage st =
     (let st1 = st\<lparr>clock := elapse en (clock st)\<rparr> in
      case listSettlementTransactions en sid \<lparr>q_perPage = 100, q_page = txnPage\<rparr> of
        Inl m \<Rightarrow> Some (Threw m, st1)
      | Inr None \<Rightarrow> Some (Ok, st1)
      | Inr (Some txns) \<Rightarrow>
          if length txns = 0 then Some (Ok, st1)
          else
            let references = references_of txns in
            if length references = 0 then
              (if length txns < 100 then Some (Ok, st1)
               else txnLoop n en sid (txnPage + 1) st1)
            else
              let st2 = reconcilePage references st1 in
              if length txns < 100 then Some (Ok, st2)
              else txnLoop n en sid (txnPage + 1) st2)"

fun forSettlements :: "nat \<Rightarrow> env \<Rightarrow> settlement list \<Rightarrow> rstate \<Rightarrow> (outcome \<times> rstate) option" where
  "forSettlements n en [] st = Some (Ok, st)"
| "forSettlements n en (x # xs) st =
     (case txnLoop n en (s_id x) 1 st of
        None \<Rightarrow> None
      | Some (Threw m, st') \<Rightarrow> Some (Threw m, st')
      | Some (Ok, st') \<Rightarrow> forSettlements n en xs st')"

fun settlementLoop :: "nat \<Rightarrow> env \<Rightarrow> date \<Rightarrow> nat \<Rightarrow> rstate \<Rightarrow> (outcome \<times> rstate) option" where
  "settlementLoop 0 en from page st = None"
| "settlementLoop (Suc n) en from page st =
     (let st1 = st\<lparr>clock := elapse en (clock st)\<rparr> in
      case listSettlements en
             \<lparr>p_from = from, p_status = ''success'', p_perPage = 50, p_page = page\<rparr> of
        Inl m \<Rightarrow> Some (Threw m, st1)
      | Inr None \<Rightarrow> Some (Ok, st1)
      | Inr (Some settlements) \<Rightarrow>
          if length settlements = 0 then Some (Ok, st1)
          else
            (case forSettlements n en settlements st1 of
               None \<Rightarrow> None
             | Some (Threw m, st2) \<Rightarrow> Some (Threw m, st2)
             | Some (Ok, st2) \<Rightarrow>
                 if length settlements < 50 then Some (Ok, st2)
                 else settlementLoop n en from (page + 1) st2))"

record run_result =
  r_outcome :: outcome
  r_db :: db
  r_from :: date
  r_clock :: date
  r_total :: nat

definition job_key :: string where
  "job_key = ''paystack_settlement_reconcile''"

text \<open>One run, started at time \<open>now\<close> on the database \<open>s\<close>. The result keeps what the run
  logs (\<open>from\<close>, the counter) next to the outcome and the database it leaves.\<close>

definition runPaystackSettlementReconcile ::
  "nat \<Rightarrow> env \<Rightarrow> db \<Rightarrow> date \<Rightarrow> run_result option" where
  "runPaystackSettlementReconcile n en s now =
     (let lastRun = getLastRun job_key (jobs s);
          from = (case lastRun of
                    Some t \<Rightarrow> t
                  | None \<Rightarrow> now - 1000 * 60 * 60 * 24 * DEFAULT_LOOKBACK_DAYS en)
      in
      case settlementLoop n en from 1
             \<lparr>store = donations s, clock = now, totalReconciled = 0\<rparr> of
        None \<Rightarrow> None
      | Some (Threw m, st) \<Rightarrow>
          Some \<lparr>r_outcome = Threw m, r_db = s\<lparr>donations := store st\<rparr>, r_from = from,
                r_clock = clock st, r_total = totalReconciled st\<rparr>
      | Some (Ok, st) \<Rightarrow>
          Some \<lparr>r_outcome = Ok,
                r_db = s\<lparr>donations := store st,
                          jobs := updateLastRun job_key (clock st) (jobs s)\<rparr>,
                r_from = from, r_clock = clock st, r_total = totalReconciled st\<rparr>)"

section \<open>Reachable states\<close>

text \<open>
  The databases the subsystem can produce: it starts with no donation, and each step is one
  of its operations. Events are managed elsewhere and may change at any time.
\<close>

inductive reachable :: "db \<Rightarrow> bool" where
  initial: "reachable \<lparr>donations = [], events = evs, jobs = js\<rparr>"
| event_change: "reachable s \<Longrightarrow> reachable (s\<lparr>events := evs\<rparr>)"
| chip_in: "reachable s \<Longrightarrow> reachable (snd (chipin en creq fr s))"
| verify: "reachable s \<Longrightarrow> reachable (snd (verifyPayment en q s))"
| webhook: "reachable s \<Longrightarrow> reachable (snd (paystackWebhook en wreq s))"
| reconcile:
    "reachable s \<Longrightarrow> runPaystackSettlementReconcile n en s now = Some r \<Longrightarrow> reachable (r_db r)"

section \<open>Requests that reach the chip-in completion\<close>

text \<open>
  A webhook request that passes every check before the chip-in branch of the webhook
  handler: the signature the handler recomputes matches, the event is \<open>charge.success\<close>,
  the payload carries the reference \<open>r\<close>, and the gateway confirms the transaction \<open>vd\<close> as
  a successful chip-in.
\<close>

definition confirmedChipin :: "env \<Rightarrow> webhook_request \<Rightarrow> string \<Rightarrow> verified \<Rightarrow> bool" where
  "confirmedChipin en req r vd =
     (x_paystack_signature req =
        Some (hmac_sha512_hex en (PAYSTACK_SECRET_KEY en) (JSON_stringify (req_body req))) \<and>
      js_prop (req_body req) ''event'' = Some (JStr ''charge.success'') \<and>
      (\<exists>pdata. js_prop (req_body req) ''data'' = Some pdata \<and>
               js_prop pdata ''reference'' = Some (JStr r)) \<and>
      paystack_verify en r = Inr vd \<and>
      v_status vd = ''success'' \<and>
      map_option m_type (v_metadata vd) = Some ''chipin'')"


section \<open>The invariant of the donation collection\<close>

text \<open>
  Identifiers are unique, a payout-eligible donation is completed, and a completed donation
  has its gateway metadata.
\<close>

definition store_invariant :: "donation list \<Rightarrow> bool" where
  "store_invariant ds =
     (distinct (map d_id ds) \<and>
      (\<forall>d \<in> set ds. isPayoutEligible d \<longrightarrow> status d = Completed) \<and>
      (\<forall>d \<in> set ds. status d = Completed \<longrightarrow> metadata d \<noteq> None))"

section \<open>Stores that are ahead of another\<close>

text \<open>
  \<open>ahead ds ds'\<close>: the collection \<open>ds'\<close> has the documents of \<open>ds\<close> in the same order, each
  either unchanged, or changed from completed, payout pending and not payout-eligible to
  payout-eligible.
\<close>

abbreviation ahead :: "donation list \<Rightarrow> donation list \<Rightarrow> bool" where
  "ahead \<equiv>
     list_all2 (\<lambda>d d'. d' = d \<or>
                        (status d = Completed \<and> payoutStatus d = PayoutPending \<and>
                         \<not> isPayoutEligible d \<and> isPayoutEligible d'))"

section \<open>A concrete scenario\<close>

text \<open>
  One private event that takes donations of at least 1000, one donation of 5000 whose fee
  is 150, and a gateway that reports the transaction as successful with a given amount and
  lists it in one settlement. The keyed digest of this environment is a stand-in
  (key followed by message); the statements below hold for every digest function.
\<close>

definition ex_reference :: string where
  "ex_reference = ''CHIP-IN_1000_abc''"

definition ex_event :: event_doc where
  "ex_event =
     \<lparr>e_id = 1, title = ''Launch'', slug = ''launch-0001'', image_url = ''https://img/1.png'',
      host_name = ''Ada'', host_email = ''ada@example.org'', host_photo = None,
      isPrivate = True,
      chipInDetails = Some \<lparr>chipInType = DonationType, fixedAmount = None,
                             targetAmount = None, minAmount = Some 1000\<rparr>\<rparr>"

definition ex_donation :: donation where
  "ex_donation = (new_donation 10 1 7 5000 ex_reference)\<lparr>fee := Some 150\<rparr>"

definition ex_db :: db where
  "ex_db = \<lparr>donations = [ex_donation], events = [ex_event], jobs = []\<rparr>"

definition ex_verified :: "number \<Rightarrow> verified" where
  "ex_verified a =
     \<lparr>v_status = ''success'', v_amount = a, gateway_response = ''Successful'',
      v_metadata = Some \<lparr>m_type = ''chipin'', originalAmount = 5000, transaction_fee = 150\<rparr>\<rparr>"

definition ex_env :: "number \<Rightarrow> env" where
  "ex_env a =
     \<lparr>PAYSTACK_SECRET_KEY = ''sk_test'', FRONT_URL = ''https://front'',
      SETTLEMENT_LOOKBACK_DAYS = None,
      hmac_sha512_hex = (\<lambda>k m. k @ m),
      paystack_verify = (\<lambda>r. if r = ex_reference then Inr (ex_verified a)
                                else Inl ''Transaction reference not found''),
      paystack_initialize = (\<lambda>r. Inr \<lparr>i_status = True, authorization_url = ''https://pay''\<rparr>),
      paystack_settlement =
        (\<lambda>p. if p_page p = 1 then Inr (Some [\<lparr>s_id = 1, s_status = ''success''\<rparr>])
              else Inr (Some [])),
      paystack_settlement_transactions =
        (\<lambda>i q. if q_page q = 1
                then Inr (Some [\<lparr>t_id = 1, t_reference = Some ex_reference,
                                  t_status = ''success''\<rparr>])
                else Inr (Some [])),
      elapse = (\<lambda>t. t + 1)\<rparr>"

text \<open>The same gateway, except that listing the transactions of a settlement times out.\<close>

definition ex_failing_env :: env where
  "ex_failing_env =
     (ex_env 515000)\<lparr>paystack_settlement_transactions :=
                        (\<lambda>i q. Inl ''timeout of 30000ms exceeded'')\<rparr>"

definition ex_payload :: "string \<Rightarrow> json" where
  "ex_payload r =
     JObj [(''event'', JStr ''charge.success''), (''data'', JObj [(''reference'', JStr r)])]"

text \<open>A webhook request signed over the serialization the handler recomputes.\<close>

definition ex_webhook :: "string \<Rightarrow> webhook_request" where
  "ex_webhook r =
     \<lparr>rawBody = JSON_stringify (ex_payload r), req_body = ex_payload r,
      x_paystack_signature = Some (''sk_test'' @ JSON_stringify (ex_payload r))\<rparr>"

text \<open>
  The same payload sent with a space after each colon, and signed, as the gateway does,
  over the bytes sent.
\<close>

definition ex_spaced_body :: string where
  "ex_spaced_body =
     ''{'' @ quote ''event'' @ '': '' @ quote ''charge.success'' @ '', '' @ quote ''data'' @
     '': {'' @ quote ''reference'' @ '': '' @ quote ex_reference @ ''}}''"

definition ex_spaced_webhook :: webhook_request where
  "ex_spaced_webhook =
     \<lparr>rawBody = ex_spaced_body, req_body = ex_payload ex_reference,
      x_paystack_signature = Some (''sk_test'' @ ex_spaced_body)\<rparr>"

text \<open>The states the scenario goes through: no donation yet, the pending donation
  (\<open>ex_db\<close>), the donation completed, and the donation settled by a run started at 2000.\<close>

definition ex_request :: chipin_request where
  "ex_request =
     \<lparr>user_email = ''guest@example.org'', user_id = 7, body_amount = 5000, body_eventId = 1\<rparr>"

definition ex_fresh :: fresh where
  "ex_fresh = \<lparr>date_now = 1000, random_hex = ''abc'', new_oid = 10\<rparr>"

definition ex_empty :: db where
  "ex_empty = \<lparr>donations = [], events = [ex_event], jobs = []\<rparr>"

definition ex_completed :: donation where
  "ex_completed = completionUpdate ex_reference ''Successful'' ex_donation"

definition ex_completed_db :: db where
  "ex_completed_db = \<lparr>donations = [ex_completed], events = [ex_event], jobs = []\<rparr>"

definition ex_settled_db :: db where
  "ex_settled_db =
     \<lparr>donations = [settle 2002 ex_completed], events = [ex_event],
      jobs = [\<lparr>job_name = job_key, lastRunAt = Some 2002\<rparr>]\<rparr>"

section \<open>Basic facts about the store operations\<close>

lemma updateOne_no_match: "findOne p xs = None \<Longrightarrow> updateOne p u xs = xs"
  by (induction xs) (auto split: if_splits)

lemma map_updateOne:
  "(\<And>x. f (u x) = f x) \<Longrightarrow> map f (updateOne p u xs) = map f xs"
  by (induction xs) auto

lemma set_updateOne: "set (updateOne p u xs) \<subseteq> set xs \<union> u ` set xs"
  by (induction xs) auto

lemma map_if_absent:
  "i \<notin> f ` set xs \<Longrightarrow> map (\<lambda>x. if f x = i then u x else x) xs = xs"
  by (induction xs) auto

lemma updateOne_distinct:
  "distinct (map f xs) \<Longrightarrow>
   updateOne (\<lambda>x. f x = i) u xs = map (\<lambda>x. if f x = i then u x else x) xs"
  by (induction xs) (auto simp: map_if_absent)

lemma invariant_completion:
  assumes "store_invariant ds"
  shows "store_invariant (updateOne (completionFilter r) (completionUpdate r g) ds)"
proof -
  let ?ds = "updateOne (completionFilter r) (completionUpdate r g) ds"
  have ids: "map d_id ?ds = map d_id ds"
    by (rule map_updateOne) (simp add: completionUpdate_def)
  have mem: "\<And>d. d \<in> set ?ds \<Longrightarrow> d \<in> set ds \<or> (\<exists>x \<in> set ds. d = completionUpdate r g x)"
    using set_updateOne [of "completionFilter r" "completionUpdate r g" ds] by auto
  show ?thesis
    unfolding store_invariant_def
  proof (intro conjI ballI impI)
    show "distinct (map d_id ?ds)" using assms ids by (simp add: store_invariant_def)
  next
    fix d assume "d \<in> set ?ds" "isPayoutEligible d"
    with mem [of d] assms show "status d = Completed"
      by (auto simp: store_invariant_def completionUpdate_def)
  next
    fix d assume "d \<in> set ?ds" "status d = Completed"
    with mem [of d] assms show "metadata d \<noteq> None"
      by (auto simp: store_invariant_def completionUpdate_def)
  qed
qed

lemma verifyPayment_store:
  "events (snd (verifyPayment en q s)) = events s \<and>
   jobs (snd (verifyPayment en q s)) = jobs s \<and>
   (donations (snd (verifyPayment en q s)) = donations s \<or>
    (\<exists>r g. donations (snd (verifyPayment en q s)) =
              updateOne (completionFilter r) (completionUpdate r g) (donations s)))"
  by (auto simp add: verifyPayment_def Let_def findOneAndUpdate_def
      split: option.splits sum.splits)

lemma paystackWebhook_store:
  "events (snd (paystackWebhook en req s)) = events s \<and>
   jobs (snd (paystackWebhook en req s)) = jobs s \<and>
   (donations (snd (paystackWebhook en req s)) = donations s \<or>
    (\<exists>r g. donations (snd (paystackWebhook en req s)) =
              updateOne (completionFilter r) (completionUpdate r g) (donations s)))"
  by (auto simp add: paystackWebhook_def Let_def findOneAndUpdate_def
      split: option.splits sum.splits json.splits)

lemma pre_save_fields:
  "pre_save evs b d = Inr d' \<Longrightarrow>
     d_id d' = d_id d \<and> status d' = status d \<and> isPayoutEligible d' = isPayoutEligible d \<and>
     metadata d' = metadata d \<and> paymentReference d' = paymentReference d"
  by (auto simp: pre_save_def split: if_splits option.splits)

lemma chipin_store:
  "events (snd (chipin en req fr s)) = events s \<and>
   jobs (snd (chipin en req fr s)) = jobs s \<and>
   (donations (snd (chipin en req fr s)) = donations s \<or>
    (\<exists>d. donations (snd (chipin en req fr s)) = donations s @ [d] \<and>
          d_id d \<notin> set (map d_id (donations s)) \<and> status d = Pending \<and>
          isPayoutEligible d = False))"
  by (auto simp add: chipin_def Let_def Donation_create_def duplicate_key_def new_donation_def
      split: option.splits sum.splits prod.splits dest!: pre_save_fields)

lemma invariant_chipin:
  assumes "store_invariant (donations s)"
  shows "store_invariant (donations (snd (chipin en req fr s)))"
  using chipin_store [of en req fr s] assms
  by (auto simp: store_invariant_def)

section \<open>What the two handlers do on the chip-in branch\<close>

lemma completionFilter_update [simp]:
  "completionFilter r (completionUpdate r g d) = completionFilter r d"
  by (simp add: completionFilter_def completionUpdate_def)

lemma webhook_chipin:
  assumes "confirmedChipin en req r vd"
  shows "paystackWebhook en req s =
           (SendStatus 200,
            if (\<exists>d. findOne (completionFilter r) (donations s) = Some d \<and> status d = Completed)
            then s
            else s\<lparr>donations := updateOne (completionFilter r)
                      (completionUpdate r (gateway_response vd)) (donations s)\<rparr>)"
proof -
  from assms obtain pdata md where
    sg: "x_paystack_signature req =
        Some (hmac_sha512_hex en (PAYSTACK_SECRET_KEY en) (JSON_stringify (req_body req)))"
    and ev: "js_prop (req_body req) ''event'' = Some (JStr ''charge.success'')"
    and da: "js_prop (req_body req) ''data'' = Some pdata"
    and re: "js_prop pdata ''reference'' = Some (JStr r)"
    and gw: "paystack_verify en r = Inr vd" "v_status vd = ''success''"
      "v_metadata vd = Some md" "m_type md = ''chipin''"
    by (auto simp: confirmedChipin_def)
  have "pdata \<noteq> JNull" using re by (auto simp: js_prop_def)
  then show ?thesis using sg ev da re gw
    by (cases pdata)
      (auto simp add: paystackWebhook_def Let_def js_String_def findOneAndUpdate_def)
qed



section \<open>The reconciliation loops keep the invariant\<close>

lemma bulkWrite_map:
  assumes "distinct (map d_id ds)" and "\<And>d. d_id (u d) = d_id d" and "\<And>d. u (u d) = u d"
  shows "bulkWrite (map (\<lambda>i. (i, u)) ids) ds =
           map (\<lambda>d. if d_id d \<in> set ids then u d else d) ds"
  using assms(1)
proof (induction ids arbitrary: ds)
  case Nil
  then show ?case by simp
next
  case (Cons i ids)
  let ?ds = "map (\<lambda>d. if d_id d = i then u d else d) ds"
  have ids: "map d_id ?ds = map d_id ds" by (induction ds) (auto simp: assms(2))
  have dist: "distinct (map d_id ?ds)" unfolding ids by (rule Cons.prems)
  have "bulkWrite (map (\<lambda>i. (i, u)) (i # ids)) ds = bulkWrite (map (\<lambda>i. (i, u)) ids) ?ds"
    using Cons.prems by (simp add: updateOne_distinct)
  also have "\<dots> = map (\<lambda>d. if d_id d \<in> set ids then u d else d) ?ds"
    by (rule Cons.IH [OF dist])
  also have "\<dots> = map (\<lambda>d. if d_id d \<in> set (i # ids) then u d else d) ds"
    by (simp add: assms(2,3))
  finally show ?case .
qed

lemma reconcilePage_store:
  assumes "distinct (map d_id (store st))"
  shows "store (reconcilePage refs st) =
           map (\<lambda>d. if reconcileFilter refs d then settle (clock st) d else d) (store st)"
proof -
  let ?found = "filter (reconcileFilter refs) (store st)"
  have ops: "map (\<lambda>d. (d_id d, settle (clock st))) ?found =
               map (\<lambda>i. (i, settle (clock st))) (map d_id ?found)"
    by simp
  have member: "\<And>d. d \<in> set (store st) \<Longrightarrow>
                  d_id d \<in> set (map d_id ?found) \<longleftrightarrow> reconcileFilter refs d"
    using assms by (auto simp: distinct_map inj_on_def)
  have "bulkWrite (map (\<lambda>d. (d_id d, settle (clock st))) ?found) (store st) =
          map (\<lambda>d. if d_id d \<in> set (map d_id ?found) then settle (clock st) d else d) (store st)"
    unfolding ops using assms by (intro bulkWrite_map) (simp_all add: settle_def)
  also have "\<dots> = map (\<lambda>d. if reconcileFilter refs d then settle (clock st) d else d) (store st)"
    using member by (intro map_cong) auto
  finally have w: "bulkWrite (map (\<lambda>d. (d_id d, settle (clock st))) ?found) (store st) =
      map (\<lambda>d. if reconcileFilter refs d then settle (clock st) d else d) (store st)" .
  show ?thesis
  proof (cases "?found = []")
    case True
    then have "\<And>d. d \<in> set (store st) \<Longrightarrow> \<not> reconcileFilter refs d"
      by (auto simp: filter_empty_conv)
    then have "map (\<lambda>d. if reconcileFilter refs d then settle (clock st) d else d) (store st) =
                 store st"
      by (intro map_idI) auto
    with True show ?thesis by (simp add: reconcilePage_def)
  next
    case False
    with w show ?thesis by (simp add: reconcilePage_def Let_def)
  qed
qed

lemma reconcilePage_clock [simp]: "clock (reconcilePage refs st) = clock st"
  by (simp add: reconcilePage_def Let_def)

lemma invariant_reconcilePage:
  assumes "store_invariant (store st)"
  shows "store_invariant (store (reconcilePage refs st))"
proof -
  have d: "distinct (map d_id (store st))" using assms by (simp add: store_invariant_def)
  show ?thesis
    unfolding reconcilePage_store [OF d] using assms
    by (auto simp: store_invariant_def settle_def reconcileFilter_def o_def if_distrib
        cong: if_cong)
qed

text \<open>A property of the run state that the clock and a page keep is kept by every loop.\<close>

lemma txnLoop_keeps:
  assumes tick: "\<And>st t. P st \<Longrightarrow> P (st\<lparr>clock := t\<rparr>)"
    and page: "\<And>refs st. P st \<Longrightarrow> P (reconcilePage refs st)"
  shows "txnLoop n en sid p st = Some (out, st') \<Longrightarrow> P st \<Longrightarrow> P st'"
proof (induction n arbitrary: p st)
  case 0
  then show ?case by simp
next
  case (Suc n)
  from Suc.prems show ?case
    by (auto simp: Let_def split: sum.splits option.splits if_splits
        intro: tick page Suc.IH)
qed

lemma forSettlements_keeps:
  assumes tick: "\<And>st t. P st \<Longrightarrow> P (st\<lparr>clock := t\<rparr>)"
    and page: "\<And>refs st. P st \<Longrightarrow> P (reconcilePage refs st)"
  shows "forSettlements n en xs st = Some (out, st') \<Longrightarrow> P st \<Longrightarrow> P st'"
proof (induction xs arbitrary: st)
  case Nil
  then show ?case by simp
next
  case (Cons x xs)
  from Cons.prems(1) consider
      (threw) m where "txnLoop n en (s_id x) 1 st = Some (Threw m, st')"
    | (ok) st1 where "txnLoop n en (s_id x) 1 st = Some (Ok, st1)"
        and "forSettlements n en xs st1 = Some (out, st')"
    by (auto split: option.splits outcome.splits prod.splits)
  then show ?case
  proof cases
    case threw
    then show ?thesis using txnLoop_keeps [of P, OF tick page] Cons.prems(2) by blast
  next
    case ok
    from ok(1) Cons.prems(2) have "P st1" using txnLoop_keeps [of P, OF tick page] by blast
    with ok(2) show ?thesis by (rule Cons.IH)
  qed
qed

lemma settlementLoop_keeps:
  assumes tick: "\<And>st t. P st \<Longrightarrow> P (st\<lparr>clock := t\<rparr>)"
    and page: "\<And>refs st. P st \<Longrightarrow> P (reconcilePage refs st)"
  shows "settlementLoop n en frm p st = Some (out, st') \<Longrightarrow> P st \<Longrightarrow> P st'"
proof (induction n arbitrary: p st)
  case 0
  then show ?case by simp
next
  case (Suc n)
  let ?st1 = "st\<lparr>clock := elapse en (clock st)\<rparr>"
  have P1: "P ?st1" using Suc.prems(2) by (rule tick)
  from Suc.prems(1) consider
      (stop) "st' = ?st1"
    | (inner) xs where "forSettlements n en xs ?st1 = Some (out, st')"
    | (more) xs st2 where "forSettlements n en xs ?st1 = Some (Ok, st2)"
        and "settlementLoop n en frm (p + 1) st2 = Some (out, st')"
    by (auto simp: Let_def
        split: sum.splits option.splits if_splits outcome.splits prod.splits)
  then show ?case
  proof cases
    case stop
    with P1 show ?thesis by simp
  next
    case inner
    then show ?thesis using forSettlements_keeps [of P, OF tick page] P1 by blast
  next
    case more
    from more(1) P1 have "P st2" using forSettlements_keeps [of P, OF tick page] by blast
    with more(2) show ?thesis by (rule Suc.IH)
  qed
qed

lemma invariant_reconcile:
  assumes "runPaystackSettlementReconcile n en s now = Some r"
    and "store_invariant (donations s)"
  shows "store_invariant (donations (r_db r))"
proof -
  let ?st = "\<lparr>store = donations s, clock = now, totalReconciled = 0\<rparr>"
  let ?P = "\<lambda>st. store_invariant (store st)"
  from assms(1) obtain out st' frm where
    loop: "settlementLoop n en frm 1 ?st = Some (out, st')" and db: "donations (r_db r) = store st'"
    by (auto simp: runPaystackSettlementReconcile_def Let_def
        split: option.splits outcome.splits prod.splits)
  have "?P st'"
    by (rule settlementLoop_keeps [of ?P, OF _ _ loop])
       (simp_all add: invariant_reconcilePage assms(2))
  with db show ?thesis by simp
qed

lemma reachable_invariant: "reachable s \<Longrightarrow> store_invariant (donations s)"
proof (induction rule: reachable.induct)
  case (initial evs js)
  then show ?case by (simp add: store_invariant_def)
next
  case (event_change s evs)
  then show ?case by simp
next
  case (chip_in s en creq fr)
  from chip_in.IH show ?case by (rule invariant_chipin)
next
  case (verify s en q)
  with verifyPayment_store [of en q s] show ?case
    by (auto simp: invariant_completion)
next
  case (webhook s en wreq)
  with paystackWebhook_store [of en wreq s] show ?case
    by (auto simp: invariant_completion)
next
  case (reconcile s n en now r)
  then show ?case by (auto intro: invariant_reconcile)
qed

section \<open>Checkpoints, and running the job again\<close>

lemma findOne_append:
  "findOne p (xs @ ys) = (case findOne p xs of None \<Rightarrow> findOne p ys | Some x \<Rightarrow> Some x)"
  by (induction xs) auto

lemma findOne_updateOne:
  "findOne p xs = Some d \<Longrightarrow> p (u d) \<Longrightarrow> findOne p (updateOne p u xs) = Some (u d)"
  by (induction xs) (auto split: if_splits)

lemma findOne_Some: "findOne p xs = Some x \<Longrightarrow> p x \<and> x \<in> set xs"
  by (induction xs) (auto split: if_splits)

lemma getLastRun_updateLastRun: "getLastRun k (updateLastRun k t js) = Some t"
proof (cases "findOne (\<lambda>j. job_name j = k) js")
  case None
  then show ?thesis by (simp add: getLastRun_def updateLastRun_def findOne_append)
next
  case (Some j)
  then have "findOne (\<lambda>j. job_name j = k)
               (updateOne (\<lambda>j. job_name j = k) (\<lambda>j. j\<lparr>lastRunAt := Some t\<rparr>) js) =
             Some (j\<lparr>lastRunAt := Some t\<rparr>)"
    by (intro findOne_updateOne) (auto dest: findOne_Some)
  with Some show ?thesis by (simp add: getLastRun_def updateLastRun_def)
qed


lemma no_match_after_page:
  assumes "distinct (map d_id (store st))"
  shows "filter (reconcileFilter refs) (store (reconcilePage refs st)) = []"
  unfolding reconcilePage_store [OF assms]
  by (auto simp: filter_empty_conv reconcileFilter_def settle_def)

lemma ids_after_page:
  assumes "distinct (map d_id (store st))"
  shows "map d_id (store (reconcilePage refs st)) = map d_id (store st)"
  unfolding reconcilePage_store [OF assms]
  by (induction "store st") (auto simp: settle_def)

lemma ahead_after_page:
  assumes "distinct (map d_id (store st))"
  shows "ahead (store st) (store (reconcilePage refs st))"
  unfolding reconcilePage_store [OF assms]
  by (auto simp: list_all2_map2 settle_def reconcileFilter_def intro!: list.rel_refl_strong)

lemma ahead_trans:
  "ahead xs ys \<Longrightarrow>
   ahead ys zs \<Longrightarrow>
   ahead xs zs"
  unfolding list_all2_conv_all_nth by (intro conjI allI impI) (simp, metis)

lemma no_match_ahead:
  assumes "filter (reconcileFilter refs) xs = []"
    and "ahead xs ys"
  shows "filter (reconcileFilter refs) ys = []"
proof -
  have "\<not> reconcileFilter refs y" if "y \<in> set ys" for y
  proof -
    from that obtain i where i: "i < length ys" "ys ! i = y"
      by (auto simp: in_set_conv_nth)
    with assms(2) have "xs ! i \<in> set xs" "y = xs ! i \<or> isPayoutEligible y"
      by (auto simp: list_all2_conv_all_nth)
    then obtain x where "x \<in> set xs" "y = x \<or> isPayoutEligible y" by blast
    with assms(1) show ?thesis by (auto simp: filter_empty_conv reconcileFilter_def)
  qed
  then show ?thesis by (simp add: filter_empty_conv)
qed

lemma reconcilePage_no_match:
  "filter (reconcileFilter refs) (store u) = [] \<Longrightarrow> reconcilePage refs u = u"
  by (simp add: reconcilePage_def)


lemma ahead_refl: "ahead xs xs"
  by (simp add: list.rel_refl_strong)

lemma ahead_step:
  assumes "distinct (map d_id (store x)) \<and>
           ahead ds (store x)"
  shows "distinct (map d_id (store (reconcilePage refs x))) \<and>
         ahead ds (store (reconcilePage refs x))"
  using assms ahead_trans [OF _ ahead_after_page [of x refs]] ids_after_page [of x refs]
  by simp

lemma txnLoop_ahead:
  assumes "txnLoop n en sid p st = Some (out, st')" and "distinct (map d_id (store st))"
  shows "distinct (map d_id (store st')) \<and>
         ahead (store st) (store st')"
  by (rule txnLoop_keeps [where P = "\<lambda>x. distinct (map d_id (store x)) \<and>
        ahead (store st) (store x)", OF _ _ assms(1)])
     (simp, erule ahead_step, simp add: ahead_refl assms(2))

lemma forSettlements_ahead:
  assumes "forSettlements n en xs st = Some (out, st')" and "distinct (map d_id (store st))"
  shows "distinct (map d_id (store st')) \<and>
         ahead (store st) (store st')"
  by (rule forSettlements_keeps [where P = "\<lambda>x. distinct (map d_id (store x)) \<and>
        ahead (store st) (store x)", OF _ _ assms(1)])
     (simp, erule ahead_step, simp add: ahead_refl assms(2))

lemma settlementLoop_ahead:
  assumes "settlementLoop n en frm p st = Some (out, st')" and "distinct (map d_id (store st))"
  shows "distinct (map d_id (store st')) \<and>
         ahead (store st) (store st')"
  by (rule settlementLoop_keeps [where P = "\<lambda>x. distinct (map d_id (store x)) \<and>
        ahead (store st) (store x)", OF _ _ assms(1)])
     (simp, erule ahead_step, simp add: ahead_refl assms(2))

text \<open>
  A loop run again on a store that is ahead of the one the first run left, against a gateway
  that lists the same transactions, ends the same way and writes nothing.
\<close>

lemma txnLoop_rerun:
  assumes same: "paystack_settlement_transactions en2 = paystack_settlement_transactions en1"
  shows "txnLoop n en1 sid p st = Some (out, st') \<Longrightarrow> distinct (map d_id (store st)) \<Longrightarrow>
         ahead (store st') (store u) \<Longrightarrow>
         \<exists>u'. txnLoop n en2 sid p u = Some (out, u') \<and> store u' = store u \<and>
              totalReconciled u' = totalReconciled u"
proof (induction n arbitrary: p st u)
  case 0
  then show ?case by simp
next
  case (Suc n)
  let ?st1 = "st\<lparr>clock := elapse en1 (clock st)\<rparr>"
  let ?u1 = "u\<lparr>clock := elapse en2 (clock u)\<rparr>"
  let ?q = "\<lparr>q_perPage = 100, q_page = p\<rparr>"
  have call: "listSettlementTransactions en2 sid ?q = listSettlementTransactions en1 sid ?q"
    by (simp add: listSettlementTransactions_def same)
  have d1: "distinct (map d_id (store ?st1))" using Suc.prems(2) by simp
  from Suc.prems(1) consider
      (last) "st' = ?st1" and "txnLoop (Suc n) en2 sid p u = Some (out, ?u1)"
    | (skip) txns where "listSettlementTransactions en1 sid ?q = Inr (Some txns)"
        and "length txns \<noteq> 0" and "length (references_of txns) = 0" and "\<not> length txns < 100"
        and "txnLoop n en1 sid (p + 1) ?st1 = Some (out, st')"
    | (page_last) txns where "listSettlementTransactions en1 sid ?q = Inr (Some txns)"
        and "length txns \<noteq> 0" and "length (references_of txns) \<noteq> 0" and "length txns < 100"
        and "st' = reconcilePage (references_of txns) ?st1" and "out = Ok"
    | (page_more) txns where "listSettlementTransactions en1 sid ?q = Inr (Some txns)"
        and "length txns \<noteq> 0" and "length (references_of txns) \<noteq> 0" and "\<not> length txns < 100"
        and "txnLoop n en1 sid (p + 1) (reconcilePage (references_of txns) ?st1) = Some (out, st')"
    by (auto simp: Let_def call split: sum.splits option.splits if_splits)
  then show ?case
  proof cases
    case last
    then show ?thesis by simp
  next
    case skip
    from Suc.IH [OF skip(5) d1, of ?u1] Suc.prems(3)
    obtain u' where "txnLoop n en2 sid (p + 1) ?u1 = Some (out, u')" "store u' = store u"
      "totalReconciled u' = totalReconciled u" by auto
    with skip(1-4) show ?thesis by (simp add: call Let_def)
  next
    case page_last
    have "filter (reconcileFilter (references_of txns)) (store st') = []"
      unfolding page_last(5) by (rule no_match_after_page [OF d1])
    from no_match_ahead [OF this Suc.prems(3)]
    have "reconcilePage (references_of txns) ?u1 = ?u1"
      by (intro reconcilePage_no_match) simp
    with page_last(1-4,6) show ?thesis by (simp add: call Let_def)
  next
    case page_more
    let ?st2 = "reconcilePage (references_of txns) ?st1"
    have d2: "distinct (map d_id (store ?st2))" using d1 by (simp add: ids_after_page)
    have "filter (reconcileFilter (references_of txns)) (store ?st2) = []"
      by (rule no_match_after_page [OF d1])
    from no_match_ahead [OF this] txnLoop_ahead [OF page_more(5) d2]
    have "filter (reconcileFilter (references_of txns)) (store st') = []" by simp
    from no_match_ahead [OF this Suc.prems(3)]
    have noop: "reconcilePage (references_of txns) ?u1 = ?u1"
      by (intro reconcilePage_no_match) simp
    from Suc.IH [OF page_more(5) d2, of ?u1] Suc.prems(3)
    obtain u' where "txnLoop n en2 sid (p + 1) ?u1 = Some (out, u')" "store u' = store u"
      "totalReconciled u' = totalReconciled u" by auto
    with page_more(1-4) noop show ?thesis by (simp add: call Let_def)
  qed
qed


lemma forSettlements_rerun:
  assumes same: "paystack_settlement_transactions en2 = paystack_settlement_transactions en1"
  shows "forSettlements n en1 xs st = Some (out, st') \<Longrightarrow> distinct (map d_id (store st)) \<Longrightarrow>
         ahead (store st') (store u) \<Longrightarrow>
         \<exists>u'. forSettlements n en2 xs u = Some (out, u') \<and> store u' = store u \<and>
              totalReconciled u' = totalReconciled u"
proof (induction xs arbitrary: st u)
  case Nil
  then show ?case by simp
next
  case (Cons x xs)
  from Cons.prems(1) consider
      (threw) m where "txnLoop n en1 (s_id x) 1 st = Some (Threw m, st')" and "out = Threw m"
    | (ok) st1 where "txnLoop n en1 (s_id x) 1 st = Some (Ok, st1)"
        and "forSettlements n en1 xs st1 = Some (out, st')"
    by (auto split: option.splits outcome.splits prod.splits)
  then show ?case
  proof cases
    case threw
    from txnLoop_rerun [OF same threw(1) Cons.prems(2,3)] threw(2)
    show ?thesis by auto
  next
    case ok
    from txnLoop_ahead [OF ok(1) Cons.prems(2)]
    have d1: "distinct (map d_id (store st1))" by simp
    from forSettlements_ahead [OF ok(2) d1] Cons.prems(3)
    have "ahead (store st1) (store u)" by (auto intro: ahead_trans)
    from txnLoop_rerun [OF same ok(1) Cons.prems(2) this]
    obtain u1 where u1: "txnLoop n en2 (s_id x) 1 u = Some (Ok, u1)" "store u1 = store u"
      "totalReconciled u1 = totalReconciled u" by auto
    from Cons.IH [OF ok(2) d1, of u1] Cons.prems(3) u1(2)
    obtain u' where "forSettlements n en2 xs u1 = Some (out, u')" "store u' = store u1"
      "totalReconciled u' = totalReconciled u1" by auto
    with u1 show ?thesis by simp
  qed
qed

lemma settlementLoop_rerun:
  assumes same: "paystack_settlement_transactions en2 = paystack_settlement_transactions en1"
    and pages: "\<And>p. paystack_settlement en2
                       \<lparr>p_from = frm2, p_status = ''success'', p_perPage = 50, p_page = p\<rparr> =
                     paystack_settlement en1
                       \<lparr>p_from = frm1, p_status = ''success'', p_perPage = 50, p_page = p\<rparr>"
  shows "settlementLoop n en1 frm1 p st = Some (out, st') \<Longrightarrow>
         distinct (map d_id (store st)) \<Longrightarrow> ahead (store st') (store u) \<Longrightarrow>
         \<exists>u'. settlementLoop n en2 frm2 p u = Some (out, u') \<and> store u' = store u \<and>
              totalReconciled u' = totalReconciled u"
proof (induction n arbitrary: p st u)
  case 0
  then show ?case by simp
next
  case (Suc n)
  let ?st1 = "st\<lparr>clock := elapse en1 (clock st)\<rparr>"
  let ?u1 = "u\<lparr>clock := elapse en2 (clock u)\<rparr>"
  let ?q1 = "\<lparr>p_from = frm1, p_status = ''success'', p_perPage = 50, p_page = p\<rparr>"
  let ?q2 = "\<lparr>p_from = frm2, p_status = ''success'', p_perPage = 50, p_page = p\<rparr>"
  have call: "listSettlements en2 ?q2 = listSettlements en1 ?q1"
    by (simp add: listSettlements_def pages)
  have d1: "distinct (map d_id (store ?st1))" using Suc.prems(2) by simp
  from Suc.prems(1) consider
      (last) "st' = ?st1" and "settlementLoop (Suc n) en2 frm2 p u = Some (out, ?u1)"
    | (inner) xs where "listSettlements en1 ?q1 = Inr (Some xs)" and "length xs \<noteq> 0"
        and "forSettlements n en1 xs ?st1 = Some (out, st')"
        and "(\<exists>m. out = Threw m) \<or> length xs < 50"
    | (more) xs st2 where "listSettlements en1 ?q1 = Inr (Some xs)" and "length xs \<noteq> 0"
        and "forSettlements n en1 xs ?st1 = Some (Ok, st2)" and "\<not> length xs < 50"
        and "settlementLoop n en1 frm1 (p + 1) st2 = Some (out, st')"
    by (auto simp: Let_def call
        split: sum.splits option.splits if_splits outcome.splits prod.splits)
  then show ?case
  proof cases
    case last
    then show ?thesis by simp
  next
    case inner
    from forSettlements_rerun [OF same inner(3) d1, of ?u1] Suc.prems(3)
    obtain u' where "forSettlements n en2 xs ?u1 = Some (out, u')" "store u' = store u"
      "totalReconciled u' = totalReconciled u" by auto
    with inner(1,2,4) show ?thesis by (cases out) (auto simp: call Let_def)
  next
    case more
    from forSettlements_ahead [OF more(3) d1]
    have d2: "distinct (map d_id (store st2))" by simp
    from settlementLoop_ahead [OF more(5) d2] Suc.prems(3)
    have "ahead (store st2) (store ?u1)" by (auto intro: ahead_trans)
    from forSettlements_rerun [OF same more(3) d1 this]
    obtain u2 where u2: "forSettlements n en2 xs ?u1 = Some (Ok, u2)" "store u2 = store u"
      "totalReconciled u2 = totalReconciled u" by auto
    from Suc.IH [OF more(5) d2, of u2] Suc.prems(3) u2(2)
    obtain u' where "settlementLoop n en2 frm2 (p + 1) u2 = Some (out, u')" "store u' = store u2"
      "totalReconciled u' = totalReconciled u2" by auto
    with more(1,2,4) u2 show ?thesis by (simp add: call Let_def)
  qed
qed

section \<open>The scenario, evaluated\<close>

lemmas ex_defs = ex_env_def ex_request_def ex_fresh_def ex_empty_def ex_event_def ex_db_def
  ex_donation_def ex_reference_def ex_verified_def ex_webhook_def ex_payload_def
  ex_completed_def ex_completed_db_def ex_settled_db_def ex_failing_env_def new_donation_def

lemma ex_run_chipin:
  "chipin (ex_env 515000) ex_request ex_fresh ex_empty = (Json 201 (ChipinBody ''https://pay''), ex_db)"
  by (simp add: chipin_def ex_defs Donation_create_def pre_save_def js_lt_def js_neq_def
      duplicate_key_def calculateFee_def show_int_def show_nat.simps digit_def)

lemma ex_run_webhook:
  "paystackWebhook (ex_env 515000) (ex_webhook ex_reference) ex_db = (SendStatus 200, ex_completed_db)"
  by (simp add: paystackWebhook_def ex_defs js_prop_def js_String_def findOneAndUpdate_def
      completionFilter_def completionUpdate_def Let_def)

lemma ex_run_reconcile:
  "runPaystackSettlementReconcile (Suc (Suc 0)) (ex_env 515000) ex_completed_db 2000 =
     Some \<lparr>r_outcome = Ok, r_db = ex_settled_db, r_from = - 86398000, r_clock = 2002,
           r_total = 1\<rparr>"
  by (simp add: runPaystackSettlementReconcile_def ex_defs getLastRun_def updateLastRun_def
      DEFAULT_LOOKBACK_DAYS_def listSettlements_def listSettlementTransactions_def
      references_of_def reconcilePage_def reconcileFilter_def settle_def completionUpdate_def
      job_key_def Let_def)

lemma ex_run_failing:
  "runPaystackSettlementReconcile (Suc (Suc 0)) ex_failing_env ex_completed_db 2000 =
     Some \<lparr>r_outcome = Threw ''timeout of 30000ms exceeded'', r_db = ex_completed_db,
           r_from = - 86398000, r_clock = 2002, r_total = 0\<rparr>"
  by (simp add: runPaystackSettlementReconcile_def ex_defs getLastRun_def updateLastRun_def
      DEFAULT_LOOKBACK_DAYS_def listSettlements_def listSettlementTransactions_def
      job_key_def Let_def)

lemma ex_run_failing_again:
  "runPaystackSettlementReconcile (Suc (Suc 0)) ex_failing_env ex_completed_db 90000000 =
     Some \<lparr>r_outcome = Threw ''timeout of 30000ms exceeded'', r_db = ex_completed_db,
           r_from = 3600000, r_clock = 90000002, r_total = 0\<rparr>"
  by (simp add: runPaystackSettlementReconcile_def ex_defs getLastRun_def updateLastRun_def
      DEFAULT_LOOKBACK_DAYS_def listSettlements_def listSettlementTransactions_def
      job_key_def Let_def)

lemma ex_confirmed: "confirmedChipin (ex_env a) (ex_webhook ex_reference) ex_reference (ex_verified a)"
  by (simp add: confirmedChipin_def ex_webhook_def ex_env_def ex_payload_def js_prop_def
      ex_verified_def)


section \<open>The pre-save hook\<close>



section \<open>The amount check of the verify-payment handler\<close>



section \<open>A webhook for an unknown reference\<close>

text \<open>
  C9. A webhook with a valid signature and event \<open>charge.success\<close>, whose transaction the
  gateway confirms as a successful chip-in, is answered with 200 also when no stored
  donation has its reference: the update matches nothing, the database is unchanged and no
  error is produced.
\<close>

theorem webhook_unknown_reference:
  assumes "x_paystack_signature req =
             Some (hmac_sha512_hex en (PAYSTACK_SECRET_KEY en) (JSON_stringify (req_body req)))"
    and "js_prop (req_body req) ''event'' = Some (JStr ''charge.success'')"
    and "js_prop (req_body req) ''data'' = Some pdata"
    and "js_prop pdata ''reference'' = Some (JStr r)"
    and "paystack_verify en r = Inr vd"
    and "v_status vd = ''success''"
    and "v_metadata vd = Some md"
    and "m_type md = ''chipin''"
    and "findOne (completionFilter r) (donations s) = None"
  shows "paystackWebhook en req s = (SendStatus 200, s)"
proof -
  have "pdata \<noteq> JNull" using assms(4) by (auto simp: js_prop_def)
  then show ?thesis using assms
    by (cases pdata) (simp_all add: paystackWebhook_def Let_def js_String_def findOneAndUpdate_def updateOne_no_match)
qed

theorem webhook_unknown_reference_witness:
  "paystackWebhook (ex_env 515000) (ex_webhook ex_reference) (ex_db\<lparr>donations := []\<rparr>) =
     (SendStatus 200, ex_db\<lparr>donations := []\<rparr>)"
proof -
  have a: "x_paystack_signature (ex_webhook ex_reference) =
             Some (hmac_sha512_hex (ex_env 515000) (PAYSTACK_SECRET_KEY (ex_env 515000))
                     (JSON_stringify (req_body (ex_webhook ex_reference))))"
    by (simp add: ex_webhook_def ex_env_def)
  have b: "js_prop (req_body (ex_webhook ex_reference)) ''event'' = Some (JStr ''charge.success'')"
    by (simp add: ex_webhook_def ex_payload_def js_prop_def)
  have c: "js_prop (req_body (ex_webhook ex_reference)) ''data'' =
             Some (JObj [(''reference'', JStr ex_reference)])"
    by (simp add: ex_webhook_def ex_payload_def js_prop_def)
  have d: "js_prop (JObj [(''reference'', JStr ex_reference)]) ''reference'' =
             Some (JStr ex_reference)"
    by (simp add: js_prop_def)
  have e: "paystack_verify (ex_env 515000) ex_reference = Inr (ex_verified 515000)"
    by (simp add: ex_env_def)
  have f: "v_status (ex_verified 515000) = ''success''" by (simp add: ex_verified_def)
  have g: "v_metadata (ex_verified 515000) =
             Some \<lparr>m_type = ''chipin'', originalAmount = 5000, transaction_fee = 150\<rparr>"
    by (simp add: ex_verified_def)
  have h: "m_type \<lparr>m_type = ''chipin'', originalAmount = 5000, transaction_fee = 150\<rparr> = ''chipin''"
    by simp
  have i: "findOne (completionFilter ex_reference) (donations (ex_db\<lparr>donations := []\<rparr>)) = None"
    by simp
  show ?thesis by (rule webhook_unknown_reference [OF a b c d e f g h i])
qed

section \<open>Payout eligibility\<close>

text \<open>
  C5. In every state the subsystem can reach (from a collection with no donation, by
  chip-in creation, the verify-payment handler, the webhook handler and the reconciliation
  job, with events changing freely), a payout-eligible donation is completed. From such a
  state, a chip-in only appends donations that are not eligible, the two handlers leave the
  flag of every donation as it is, and a reconciliation run changes a donation only from
  completed, payout pending and not eligible to eligible.
\<close>

theorem payout_eligible_implies_completed:
  assumes "reachable s"
  shows "(\<forall>d \<in> set (donations s). isPayoutEligible d \<longrightarrow> status d = Completed) \<and>
         (\<forall>en creq fr. \<exists>ds.
            donations (snd (chipin en creq fr s)) = donations s @ ds \<and>
            (\<forall>d \<in> set ds. \<not> isPayoutEligible d)) \<and>
         (\<forall>en q. map isPayoutEligible (donations (snd (verifyPayment en q s))) =
                  map isPayoutEligible (donations s)) \<and>
         (\<forall>en wreq. map isPayoutEligible (donations (snd (paystackWebhook en wreq s))) =
                     map isPayoutEligible (donations s)) \<and>
         (\<forall>n en now r. runPaystackSettlementReconcile n en s now = Some r \<longrightarrow>
            list_all2 (\<lambda>d d'. d' = d \<or>
                               (status d = Completed \<and> payoutStatus d = PayoutPending \<and>
                                \<not> isPayoutEligible d \<and> isPayoutEligible d'))
              (donations s) (donations (r_db r)))"
proof (intro conjI allI impI)
  show "\<forall>d \<in> set (donations s). isPayoutEligible d \<longrightarrow> status d = Completed"
    using reachable_invariant [OF assms] by (simp add: store_invariant_def)
next
  fix en creq fr
  from chipin_store [of en creq fr s]
  show "\<exists>ds. donations (snd (chipin en creq fr s)) = donations s @ ds \<and>
             (\<forall>d \<in> set ds. \<not> isPayoutEligible d)"
    by (elim conjE disjE exE) (rule exI [of _ "[]"], simp, rule exI [of _ "[d]" for d], simp)
next
  fix en q
  from verifyPayment_store [of en q s]
  show "map isPayoutEligible (donations (snd (verifyPayment en q s))) =
          map isPayoutEligible (donations s)"
    by (auto simp: map_updateOne completionUpdate_def)
next
  fix en wreq
  from paystackWebhook_store [of en wreq s]
  show "map isPayoutEligible (donations (snd (paystackWebhook en wreq s))) =
          map isPayoutEligible (donations s)"
    by (auto simp: map_updateOne completionUpdate_def)
next
  fix n en now r
  assume run: "runPaystackSettlementReconcile n en s now = Some r"
  let ?st = "\<lparr>store = donations s, clock = now, totalReconciled = 0\<rparr>"
  from run obtain out st' frm where
    loop: "settlementLoop n en frm 1 ?st = Some (out, st')" and db: "donations (r_db r) = store st'"
    by (auto simp: runPaystackSettlementReconcile_def Let_def
        split: option.splits outcome.splits prod.splits)
  have "distinct (map d_id (store ?st))"
    using reachable_invariant [OF assms] by (simp add: store_invariant_def)
  from settlementLoop_ahead [OF loop this]
  show "ahead (donations s) (donations (r_db r))" by (simp add: db)
qed

theorem payout_eligible_implies_completed_witness:
  "reachable ex_settled_db \<and>
   map isPayoutEligible (donations ex_settled_db) = [True] \<and>
   map status (donations ex_settled_db) = [Completed] \<and>
   reachable ex_completed_db \<and>
   map isPayoutEligible (donations ex_completed_db) = [False] \<and>
   map status (donations ex_completed_db) = [Completed] \<and>
   map payoutStatus (donations ex_completed_db) = [PayoutPending]"
proof -
  have "reachable ex_empty" unfolding ex_empty_def by (rule reachable.initial)
  from reachable.chip_in [OF this, of "ex_env 515000" ex_request ex_fresh]
  have "reachable ex_db" by (simp add: ex_run_chipin)
  from reachable.webhook [OF this, of "ex_env 515000" "ex_webhook ex_reference"]
  have c: "reachable ex_completed_db" by (simp add: ex_run_webhook)
  from reachable.reconcile [OF this ex_run_reconcile]
  have r: "reachable ex_settled_db" by simp
  note t = payout_eligible_implies_completed
  from t [OF r, THEN conjunct1]
  have 1: "map status (donations ex_settled_db) = [Completed]"
    by (simp add: ex_settled_db_def settle_def ex_completed_def completionUpdate_def)
  from t [OF c, THEN conjunct2, THEN conjunct2, THEN conjunct2, THEN conjunct2, rule_format,
      OF ex_run_reconcile]
  have 2: "map status (donations ex_completed_db) = [Completed] \<and>
           map payoutStatus (donations ex_completed_db) = [PayoutPending]"
    by (simp add: ex_settled_db_def ex_completed_db_def settle_def ex_completed_def
        completionUpdate_def ex_donation_def new_donation_def)
  from 1 2 c r show ?thesis
    by (simp add: ex_settled_db_def ex_completed_db_def settle_def ex_completed_def
        completionUpdate_def ex_donation_def new_donation_def)
qed

section \<open>The checkpoint of the reconciliation job\<close>

text \<open>
  C6, as stated, fails where it says that after a run that raised the next run scans from
  the same \<open>from\<close> timestamp: with no checkpoint stored, a run started at 2000 that
  times out computes \<open>from = 2000 - 86400000\<close>, leaves the database as it was, and the
  next run, started at 90000000, computes \<open>from = 90000000 - 86400000\<close>.
\<close>

theorem checkpoint_same_from_counterexample:
  "map_option r_outcome (runPaystackSettlementReconcile (Suc (Suc 0)) ex_failing_env ex_completed_db 2000) =
     Some (Threw ''timeout of 30000ms exceeded'') \<and>
   map_option r_db (runPaystackSettlementReconcile (Suc (Suc 0)) ex_failing_env ex_completed_db 2000) =
     Some ex_completed_db \<and>
   map_option r_from (runPaystackSettlementReconcile (Suc (Suc 0)) ex_failing_env ex_completed_db 2000) =
     Some (- 86398000) \<and>
   map_option r_from (runPaystackSettlementReconcile (Suc (Suc 0)) ex_failing_env ex_completed_db 90000000) =
     Some 3600000"
  by (simp add: ex_run_failing ex_run_failing_again)

text \<open>
  C6, amended. A run reads the checkpoint first and computes \<open>from\<close> as the stored
  \<open>lastRunAt\<close> when there is one, else as its start time minus the look-back days
  (1 when the variable is unset). A run that returns normally sets the checkpoint to the
  time at its end; a run that raises leaves the checkpoints as they were, so the next run
  computes \<open>from\<close> from the same checkpoint: it is the same timestamp when a checkpoint
  is stored, and the next run's own start time minus the look-back days when none is.
\<close>

theorem checkpoint_after_run:
  assumes "runPaystackSettlementReconcile n en s now = Some r"
  shows "r_from r = (case getLastRun job_key (jobs s) of
                       Some t \<Rightarrow> t
                     | None \<Rightarrow> now - 1000 * 60 * 60 * 24 * DEFAULT_LOOKBACK_DAYS en) \<and>
         (SETTLEMENT_LOOKBACK_DAYS en = None \<longrightarrow> DEFAULT_LOOKBACK_DAYS en = 1) \<and>
         (r_outcome r = Ok \<longrightarrow>
            jobs (r_db r) = updateLastRun job_key (r_clock r) (jobs s) \<and>
            getLastRun job_key (jobs (r_db r)) = Some (r_clock r)) \<and>
         (r_outcome r \<noteq> Ok \<longrightarrow>
            jobs (r_db r) = jobs s \<and>
            (\<forall>n' en' now' r'.
               runPaystackSettlementReconcile n' en' (r_db r) now' = Some r' \<longrightarrow>
               r_from r' = (case getLastRun job_key (jobs s) of
                              Some t \<Rightarrow> r_from r
                            | None \<Rightarrow> now' - 1000 * 60 * 60 * 24 * DEFAULT_LOOKBACK_DAYS en')))"
proof -
  have frm: "r_from r' = (case getLastRun job_key (jobs s') of
                       Some t \<Rightarrow> t
                     | None \<Rightarrow> now' - 1000 * 60 * 60 * 24 * DEFAULT_LOOKBACK_DAYS en')"
    if "runPaystackSettlementReconcile n' en' s' now' = Some r'" for n' en' s' now' r'
    using that
    by (auto simp: runPaystackSettlementReconcile_def Let_def
        split: option.splits outcome.splits prod.splits)
  have ok: "jobs (r_db r) = updateLastRun job_key (r_clock r) (jobs s)" if "r_outcome r = Ok"
    using assms that
    by (auto simp: runPaystackSettlementReconcile_def Let_def
        split: option.splits outcome.splits prod.splits)
  have threw: "jobs (r_db r) = jobs s" if "r_outcome r \<noteq> Ok"
    using assms that
    by (auto simp: runPaystackSettlementReconcile_def Let_def
        split: option.splits outcome.splits prod.splits)
  show ?thesis
  proof (intro conjI impI allI)
    show "r_from r = (case getLastRun job_key (jobs s) of
                       Some t \<Rightarrow> t
                     | None \<Rightarrow> now - 1000 * 60 * 60 * 24 * DEFAULT_LOOKBACK_DAYS en)"
      by (rule frm [OF assms])
  next
    assume "SETTLEMENT_LOOKBACK_DAYS en = None"
    then show "DEFAULT_LOOKBACK_DAYS en = 1" by (simp add: DEFAULT_LOOKBACK_DAYS_def)
  next
    assume "r_outcome r = Ok"
    then show "jobs (r_db r) = updateLastRun job_key (r_clock r) (jobs s)" by (rule ok)
  next
    assume "r_outcome r = Ok"
    then show "getLastRun job_key (jobs (r_db r)) = Some (r_clock r)"
      by (simp add: ok getLastRun_updateLastRun)
  next
    assume "r_outcome r \<noteq> Ok"
    then show "jobs (r_db r) = jobs s" by (rule threw)
  next
    fix n' en' now' r'
    assume "r_outcome r \<noteq> Ok" and "runPaystackSettlementReconcile n' en' (r_db r) now' = Some r'"
    then show "r_from r' = (case getLastRun job_key (jobs s) of
                              Some t \<Rightarrow> r_from r
                            | None \<Rightarrow> now' - 1000 * 60 * 60 * 24 * DEFAULT_LOOKBACK_DAYS en')"
      using frm [of n' en' "r_db r" now' r'] frm [OF assms] threw
      by (simp split: option.splits)
  qed
qed

theorem checkpoint_after_run_witness:
  "getLastRun job_key (jobs ex_settled_db) = Some 2002 \<and>
   getLastRun job_key (jobs ex_completed_db) = None \<and>
   map_option r_from
     (runPaystackSettlementReconcile (Suc (Suc 0)) ex_failing_env ex_completed_db 90000000) =
     Some (90000000 - 1000 * 60 * 60 * 24 * DEFAULT_LOOKBACK_DAYS ex_failing_env)"
proof -
  from checkpoint_after_run [OF ex_run_reconcile]
  have a: "getLastRun job_key (jobs ex_settled_db) = Some 2002"
    by (simp add: getLastRun_updateLastRun)
  have b: "getLastRun job_key (jobs ex_completed_db) = None"
    by (simp add: ex_completed_db_def getLastRun_def)
  from checkpoint_after_run [OF ex_run_failing] b
  have "\<forall>n' en' now' r'.
          runPaystackSettlementReconcile n' en' ex_completed_db now' = Some r' \<longrightarrow>
          r_from r' = now' - 1000 * 60 * 60 * 24 * DEFAULT_LOOKBACK_DAYS en'"
    by simp
  from this [rule_format, OF ex_run_failing_again]
  have c: "(3600000::int) = 90000000 - 1000 * 60 * 60 * 24 * DEFAULT_LOOKBACK_DAYS ex_failing_env"
    by simp
  from a b c show ?thesis by (simp add: ex_run_failing_again)
qed

section \<open>Running the reconciliation job twice\<close>

text \<open>
  C7. A run never changes a donation that is already payout-eligible. When the job is run
  again on the database a first run left, against a gateway that lists the same settlement
  pages for the new window and the same transactions, the second run ends as the first did,
  leaves every donation as the first run left it (so no \<open>settledAt\<close> is overwritten), and
  its counter is 0. Identifiers in the collection are unique.
\<close>

theorem reconcile_rerun:
  assumes run1: "runPaystackSettlementReconcile n en1 s now1 = Some r1"
    and ids: "distinct (map d_id (donations s))"
    and same: "paystack_settlement_transactions en2 = paystack_settlement_transactions en1"
    and frm2: "frm2 = (case getLastRun job_key (jobs (r_db r1)) of
                         Some t \<Rightarrow> t
                       | None \<Rightarrow> now2 - 1000 * 60 * 60 * 24 * DEFAULT_LOOKBACK_DAYS en2)"
    and pages: "\<And>p. paystack_settlement en2
                       \<lparr>p_from = frm2, p_status = ''success'', p_perPage = 50, p_page = p\<rparr> =
                     paystack_settlement en1
                       \<lparr>p_from = r_from r1, p_status = ''success'', p_perPage = 50, p_page = p\<rparr>"
  shows "list_all2 (\<lambda>d d'. isPayoutEligible d \<longrightarrow> d' = d) (donations s) (donations (r_db r1)) \<and>
         (\<exists>r2. runPaystackSettlementReconcile n en2 (r_db r1) now2 = Some r2 \<and>
               r_from r2 = frm2 \<and> r_outcome r2 = r_outcome r1 \<and>
               donations (r_db r2) = donations (r_db r1) \<and> r_total r2 = 0)"
proof -
  let ?st = "\<lparr>store = donations s, clock = now1, totalReconciled = 0\<rparr>"
  let ?u = "\<lparr>store = donations (r_db r1), clock = now2, totalReconciled = 0\<rparr>"
  from run1 obtain st' where
    loop: "settlementLoop n en1 (r_from r1) 1 ?st = Some (r_outcome r1, st')"
    and db: "donations (r_db r1) = store st'"
    by (auto simp: runPaystackSettlementReconcile_def Let_def
        split: option.splits outcome.splits prod.splits)
  from settlementLoop_ahead [OF loop] ids
  have ah: "ahead (donations s) (donations (r_db r1))" by (simp add: db)
  then have first: "list_all2 (\<lambda>d d'. isPayoutEligible d \<longrightarrow> d' = d) (donations s) (donations (r_db r1))"
    by (rule list_all2_mono) auto
  have "ahead (store st') (store ?u)" by (simp add: db ahead_refl)
  from settlementLoop_rerun [OF same pages loop _ this] ids
  obtain u' where u': "settlementLoop n en2 frm2 1 ?u = Some (r_outcome r1, u')"
    "store u' = donations (r_db r1)" "totalReconciled u' = 0" by auto
  then have "\<exists>r2. runPaystackSettlementReconcile n en2 (r_db r1) now2 = Some r2 \<and>
               r_from r2 = frm2 \<and> r_outcome r2 = r_outcome r1 \<and>
               donations (r_db r2) = donations (r_db r1) \<and> r_total r2 = 0"
    by (cases "r_outcome r1") (simp_all add: runPaystackSettlementReconcile_def Let_def frm2)
  with first show ?thesis by simp
qed


theorem reconcile_rerun_witness:
  "distinct (map d_id (donations ex_completed_db)) \<and>
   map_option r_outcome
     (runPaystackSettlementReconcile (Suc (Suc 0)) (ex_env 515000) ex_settled_db 5000) = Some Ok \<and>
   map_option r_from
     (runPaystackSettlementReconcile (Suc (Suc 0)) (ex_env 515000) ex_settled_db 5000) = Some 2002 \<and>
   map_option (\<lambda>r. donations (r_db r))
     (runPaystackSettlementReconcile (Suc (Suc 0)) (ex_env 515000) ex_settled_db 5000) =
     Some (donations ex_settled_db) \<and>
   map_option r_total
     (runPaystackSettlementReconcile (Suc (Suc 0)) (ex_env 515000) ex_settled_db 5000) = Some 0"
proof -
  have ids: "distinct (map d_id (donations ex_completed_db))"
    by (simp add: ex_completed_db_def)
  have frm2: "(2002::int) =
      (case getLastRun job_key
              (jobs (r_db \<lparr>r_outcome = Ok, r_db = ex_settled_db, r_from = - 86398000,
                           r_clock = 2002, r_total = 1\<rparr>)) of
         Some t \<Rightarrow> t
       | None \<Rightarrow> 5000 - 1000 * 60 * 60 * 24 * DEFAULT_LOOKBACK_DAYS (ex_env 515000))"
    by (simp add: ex_settled_db_def getLastRun_def)
  have pages: "paystack_settlement (ex_env 515000)
                 \<lparr>p_from = 2002, p_status = ''success'', p_perPage = 50, p_page = p\<rparr> =
               paystack_settlement (ex_env 515000)
                 \<lparr>p_from = r_from \<lparr>r_outcome = Ok, r_db = ex_settled_db, r_from = - 86398000,
                                   r_clock = 2002, r_total = 1\<rparr>,
                  p_status = ''success'', p_perPage = 50, p_page = p\<rparr>" for p
    by (simp add: ex_env_def)
  from reconcile_rerun [OF ex_run_reconcile ids refl frm2 pages] ids
  show ?thesis by auto
qed

section \<open>The signature check of the webhook handler\<close>

text \<open>
  C8. The handler answers 400 and does nothing else when the header differs from the HMAC
  it recomputes, or when the event is not \<open>charge.success\<close>. The HMAC is recomputed over
  \<open>JSON_stringify\<close> of the parsed body, not over the bytes received (\<open>rawBody\<close>): the
  witness is a request whose body has a space after each colon and comma, signed over the
  bytes sent, which the handler rejects.
\<close>

theorem webhook_signature_gate:
  assumes "x_paystack_signature req \<noteq>
             Some (hmac_sha512_hex en (PAYSTACK_SECRET_KEY en) (JSON_stringify (req_body req))) \<or>
           js_prop (req_body req) ''event'' \<noteq> Some (JStr ''charge.success'')"
  shows "paystackWebhook en req s = (SendStatus 400, s)"
  using assms by (auto simp: paystackWebhook_def Let_def)

theorem webhook_signature_gate_witness:
  "x_paystack_signature ex_spaced_webhook =
     Some (hmac_sha512_hex (ex_env 515000) (PAYSTACK_SECRET_KEY (ex_env 515000))
             (rawBody ex_spaced_webhook)) \<and>
   rawBody ex_spaced_webhook \<noteq> JSON_stringify (req_body ex_spaced_webhook) \<and>
   paystackWebhook (ex_env 515000) ex_spaced_webhook ex_db = (SendStatus 400, ex_db)"
proof -
  have a: "x_paystack_signature ex_spaced_webhook =
     Some (hmac_sha512_hex (ex_env 515000) (PAYSTACK_SECRET_KEY (ex_env 515000))
             (rawBody ex_spaced_webhook))"
    by (simp add: ex_spaced_webhook_def ex_env_def)
  have b: "rawBody ex_spaced_webhook \<noteq> JSON_stringify (req_body ex_spaced_webhook)"
    by (simp add: ex_spaced_webhook_def ex_spaced_body_def ex_payload_def member_def quote_def
        escape_def ex_reference_def)
  have "x_paystack_signature ex_spaced_webhook \<noteq>
          Some (hmac_sha512_hex (ex_env 515000) (PAYSTACK_SECRET_KEY (ex_env 515000))
                  (JSON_stringify (req_body ex_spaced_webhook)))"
    using b by (simp add: ex_spaced_webhook_def ex_env_def)
  then have "paystackWebhook (ex_env 515000) ex_spaced_webhook ex_db = (SendStatus 400, ex_db)"
    by (intro webhook_signature_gate disjI1)
  with a b show ?thesis by simp
qed

section \<open>The two completion paths differ on the amount\<close>

text \<open>
  C3. For a pending donation and a transaction the gateway reports with an amount other than
  \<open>(originalAmount + transaction_fee) * 100\<close>, the webhook handler answers 200 and
  completes the donation, while the verify-payment handler rejects the same transaction
  with the amount mismatch and leaves the donation pending: the webhook path does not make
  the amount check.
\<close>

theorem webhook_accepts_mismatched_amount:
  assumes "confirmedChipin en req r vd" and "r \<noteq> []"
    and "v_metadata vd = Some md"
    and "v_amount vd \<noteq> (originalAmount md + transaction_fee md) * 100"
    and "findOne (completionFilter r) (donations s) = Some d" and "status d \<noteq> Completed"
  shows "fst (paystackWebhook en req s) = SendStatus 200 \<and>
         findOne (completionFilter r) (donations (snd (paystackWebhook en req s))) =
           Some (completionUpdate r (gateway_response vd) d) \<and>
         verifyPayment en (Some r) s =
           (Next (AppError (Text ''Payment amount mismatch'') 400), s)"
proof -
  from assms(5) have "completionFilter r d" by (auto dest: findOne_Some)
  with assms(5,6) have
    "findOne (completionFilter r)
       (updateOne (completionFilter r) (completionUpdate r (gateway_response vd)) (donations s)) =
     Some (completionUpdate r (gateway_response vd) d)"
    by (intro findOne_updateOne) simp_all
  moreover have "verifyPayment en (Some r) s =
           (Next (AppError (Text ''Payment amount mismatch'') 400), s)"
    using assms(1-4) by (simp add: verifyPayment_def confirmedChipin_def Let_def)
  ultimately show ?thesis using assms(5,6) by (simp add: webhook_chipin [OF assms(1)])
qed

theorem webhook_accepts_mismatched_amount_witness:
  "paystackWebhook (ex_env 514000) (ex_webhook ex_reference) ex_db =
     (SendStatus 200, ex_completed_db) \<and>
   verifyPayment (ex_env 514000) (Some ex_reference) ex_db =
     (Next (AppError (Text ''Payment amount mismatch'') 400), ex_db) \<and>
   map status (donations ex_completed_db) = [Completed] \<and>
   map status (donations ex_db) = [Pending]"
proof -
  have b: "ex_reference \<noteq> []" by (simp add: ex_reference_def)
  have c: "v_metadata (ex_verified 514000) =
             Some \<lparr>m_type = ''chipin'', originalAmount = 5000, transaction_fee = 150\<rparr>"
    by (simp add: ex_verified_def)
  have d: "v_amount (ex_verified 514000) \<noteq>
             (originalAmount \<lparr>m_type = ''chipin'', originalAmount = 5000, transaction_fee = 150\<rparr> +
              transaction_fee \<lparr>m_type = ''chipin'', originalAmount = 5000, transaction_fee = 150\<rparr>) * 100"
    by (simp add: ex_verified_def)
  have e: "findOne (completionFilter ex_reference) (donations ex_db) = Some ex_donation"
    by (simp add: ex_db_def completionFilter_def ex_donation_def new_donation_def)
  have f: "status ex_donation \<noteq> Completed" by (simp add: ex_donation_def new_donation_def)
  have g: "paystackWebhook (ex_env 514000) (ex_webhook ex_reference) ex_db =
     (SendStatus 200, ex_completed_db)"
    by (simp add: paystackWebhook_def ex_defs js_prop_def js_String_def findOneAndUpdate_def
      completionFilter_def completionUpdate_def Let_def)
  from webhook_accepts_mismatched_amount [OF ex_confirmed b c d e f] g
  show ?thesis
    by (simp add: ex_completed_db_def ex_completed_def completionUpdate_def ex_db_def
        ex_donation_def new_donation_def)
qed


section \<open>The completion write and its guard\<close>




section \<open>Completing a donation twice\<close>



end
